theory Spec2Isabelle
  imports Main "HOL-Library.Multiset"
begin

section \<open>The memory puzzle of \<^verbatim>\<open>memory.py\<close>\<close>

text \<open>
  The game board is a list of columns, each column a list of icons; an icon is a pair of a
  shape and a colour. A second grid of booleans of the same dimensions records which icons
  are revealed. The player's current selection is a list of boxes. Python mutates the grids
  and the selection in place; here every function returns the updated value. Every Python
  exception the modelled code can raise is a value of \<open>error\<close>, returned as \<open>Inl\<close>.
\<close>

subsection \<open>Module constants\<close>

definition WINDOWWIDTH :: int where "WINDOWWIDTH = 640"
definition WINDOWHEIGHT :: int where "WINDOWHEIGHT = 480"
definition BOXSIZE :: int where "BOXSIZE = 40"
definition GAPSIZE :: int where "GAPSIZE = 10"
definition BOARDWIDTH :: nat where "BOARDWIDTH = 10"
definition BOARDHEIGHT :: nat where "BOARDHEIGHT = 7"

text \<open>
  \<^verbatim>\<open>int(n / 2)\<close>: true division followed by truncation towards zero. The quotient is
  exact on the small integers it is applied to.
\<close>

definition int_half :: "int \<Rightarrow> int" where
  "int_half n = (if 0 \<le> n then n div 2 else - ((- n) div 2))"

definition XMARGIN :: int where
  "XMARGIN = int_half (WINDOWWIDTH - (int BOARDWIDTH * (BOXSIZE + GAPSIZE)))"

definition YMARGIN :: int where
  "YMARGIN = int_half (WINDOWHEIGHT - (int BOARDHEIGHT * (BOXSIZE + GAPSIZE)))"

text \<open>
  The five shape names of \<^verbatim>\<open>ALLSHAPES\<close> (the strings \<^verbatim>\<open>'donut'\<close>, \<^verbatim>\<open>'square'\<close>,
  \<^verbatim>\<open>'diamond'\<close>, \<^verbatim>\<open>'triangle'\<close>, \<^verbatim>\<open>'circle'\<close>) and the seven colours of
  \<^verbatim>\<open>ALLCOLORS\<close>. The dispatch table of \<^verbatim>\<open>drawIcon\<close> has an entry for each of the five
  shapes.
\<close>

datatype shape = Donut | Square | Diamond | Triangle | Circle

datatype color = Red | Green | Blue | Yellow | Orange | Purple | Cyan

type_synonym icon = "shape \<times> color"

definition ALLCOLORS :: "color list" where
  "ALLCOLORS = [Red, Green, Blue, Yellow, Orange, Purple, Cyan]"

definition ALLSHAPES :: "shape list" where
  "ALLSHAPES = [Donut, Square, Diamond, Triangle, Circle]"

datatype error = AssertionError | IndexError | ValueError

text \<open>
  The two module-level \<^verbatim>\<open>assert\<close> statements, in the order in which the module runs them.
  The board dimensions and the catalogue sizes are parameters, so that the check can be
  stated for every configuration; the program's own values are \<open>BOARDWIDTH\<close>,
  \<open>BOARDHEIGHT\<close>, \<open>ALLCOLORS\<close> and \<open>ALLSHAPES\<close>.
\<close>

definition moduleAsserts :: "nat \<Rightarrow> nat \<Rightarrow> 'c list \<Rightarrow> 's list \<Rightarrow> error + unit" where
  "moduleAsserts boardwidth boardheight allcolors allshapes =
     (if (boardwidth * boardheight) mod 2 \<noteq> 0 then Inl AssertionError
      else if length allcolors * length allshapes * 2 \<ge> boardwidth * boardheight then Inr ()
      else Inl AssertionError)"

subsection \<open>Python lists\<close>

text \<open>
  Indexing a Python list: a negative index counts from the end, and an index outside
  \<open>[-len, len)\<close> raises \<^verbatim>\<open>IndexError\<close>.
\<close>

definition py_index :: "'a list \<Rightarrow> int \<Rightarrow> error + nat" where
  "py_index xs i =
     (let n = int (length xs); k = (if i < 0 then i + n else i)
      in if 0 \<le> k \<and> k < n then Inr (nat k) else Inl IndexError)"

definition py_getitem :: "'a list \<Rightarrow> int \<Rightarrow> error + 'a" where
  "py_getitem xs i = (case py_index xs i of Inl e \<Rightarrow> Inl e | Inr k \<Rightarrow> Inr (xs ! k))"

definition py_setitem :: "'a list \<Rightarrow> int \<Rightarrow> 'a \<Rightarrow> error + 'a list" where
  "py_setitem xs i v = (case py_index xs i of Inl e \<Rightarrow> Inl e | Inr k \<Rightarrow> Inr (xs[k := v]))"

text \<open>\<^verbatim>\<open>list.pop()\<close> removes and returns the last item, and raises on an empty list.\<close>

definition pop :: "'a list \<Rightarrow> error + ('a \<times> 'a list)" where
  "pop xs = (if xs = [] then Inl IndexError else Inr (last xs, butlast xs))"

subsection \<open>The random source\<close>

text \<open>
  The generator's state is the stream of numbers it is still going to draw.
  \<open>randbelow n\<close> draws the next one, reduced into \<open>[0, n)\<close>. \<^verbatim>\<open>random.shuffle\<close> is the
  library's Fisher-Yates loop: for \<open>i\<close> from \<open>len - 1\<close> down to \<open>1\<close>, draw
  \<open>j\<close> below \<open>i + 1\<close> and exchange the items at \<open>i\<close> and \<open>j\<close>.
\<close>

type_synonym rng = "nat \<Rightarrow> nat"

definition randbelow :: "nat \<Rightarrow> rng \<Rightarrow> nat \<times> rng" where
  "randbelow n g = (g 0 mod n, \<lambda>k. g (Suc k))"

fun shuffle_from :: "nat \<Rightarrow> 'a list \<Rightarrow> rng \<Rightarrow> 'a list \<times> rng" where
  "shuffle_from 0 xs g = (xs, g)"
| "shuffle_from (Suc i) xs g =
     (case randbelow (Suc i + 1) g of
        (j, g') \<Rightarrow> shuffle_from i (xs[Suc i := xs ! j, j := xs ! Suc i]) g')"

definition shuffle :: "'a list \<Rightarrow> rng \<Rightarrow> 'a list \<times> rng" where
  "shuffle xs g = shuffle_from (length xs - 1) xs g"

subsection \<open>Board generation\<close>

text \<open>
  \<^verbatim>\<open>[icons.pop() for y in range(height)]\<close>: one column, popped from the end of the
  remaining icons. The remaining icons are returned with the column.
\<close>

fun popColumn :: "nat \<Rightarrow> 'a list \<Rightarrow> error + ('a list \<times> 'a list)" where
  "popColumn 0 icons = Inr ([], icons)"
| "popColumn (Suc n) icons =
     (case pop icons of
        Inl e \<Rightarrow> Inl e
      | Inr (x, icons') \<Rightarrow>
          (case popColumn n icons' of
             Inl e \<Rightarrow> Inl e
           | Inr (col, icons'') \<Rightarrow> Inr (x # col, icons'')))"

text \<open>\<^verbatim>\<open>[[icons.pop() for y in range(height)] for x in range(width)]\<close>\<close>

fun popColumns :: "nat \<Rightarrow> nat \<Rightarrow> 'a list \<Rightarrow> error + ('a list list \<times> 'a list)" where
  "popColumns 0 height icons = Inr ([], icons)"
| "popColumns (Suc w) height icons =
     (case popColumn height icons of
        Inl e \<Rightarrow> Inl e
      | Inr (col, icons') \<Rightarrow>
          (case popColumns w height icons' of
             Inl e \<Rightarrow> Inl e
           | Inr (cols, icons'') \<Rightarrow> Inr (col # cols, icons'')))"

text \<open>
  \<^verbatim>\<open>getRandomizedBoard(width, height)\<close>. The globals \<^verbatim>\<open>ALLSHAPES\<close> and
  \<^verbatim>\<open>ALLCOLORS\<close> it reads are the first two parameters. The dimensions are counts of
  columns and rows. \<^verbatim>\<open>int(width * height / 2)\<close> is the product halved and truncated
  (the true division is exact on every product below \<open>2 ^ 53\<close>, far beyond any board);
  \<^verbatim>\<open>allIcons[:numIcons] * 2\<close> is the prefix followed by itself.
\<close>

definition getRandomizedBoard ::
  "'s list \<Rightarrow> 'c list \<Rightarrow> nat \<Rightarrow> nat \<Rightarrow> rng \<Rightarrow> error + (('s \<times> 'c) list list \<times> rng)" where
  "getRandomizedBoard allshapes allcolors width height g =
     (let allIcons = List.product allshapes allcolors in
      case shuffle allIcons g of
        (allIcons', g') \<Rightarrow>
          (let numIcons = (width * height) div 2;
               icons = take numIcons allIcons' @ take numIcons allIcons' in
           case shuffle icons g' of
             (icons', g'') \<Rightarrow>
               (case popColumns width height icons' of
                  Inl e \<Rightarrow> Inl e
                | Inr (board, rest) \<Rightarrow> Inr (board, g''))))"

text \<open>\<^verbatim>\<open>generateRevealedBoxesData\<close>: \<^verbatim>\<open>[[revealed] * height for x in range(width)]\<close>\<close>

definition generateRevealedBoxesData :: "bool \<Rightarrow> nat \<Rightarrow> nat \<Rightarrow> bool list list" where
  "generateRevealedBoxesData revealed width height =
     map (\<lambda>x. replicate height revealed) [0..<width]"

text \<open>
  Start of the program: the module-level assertions run when the module is loaded, and only
  then \<^verbatim>\<open>main\<close> calls \<^verbatim>\<open>createBoard\<close>, which generates the board and the all-hidden
  reveal grid for the configured dimensions.
\<close>

definition createBoard ::
  "'s list \<Rightarrow> 'c list \<Rightarrow> nat \<Rightarrow> nat \<Rightarrow> rng
    \<Rightarrow> error + ((('s \<times> 'c) list list \<times> bool list list) \<times> rng)" where
  "createBoard allshapes allcolors boardwidth boardheight g =
     (case getRandomizedBoard allshapes allcolors boardwidth boardheight g of
        Inl e \<Rightarrow> Inl e
      | Inr (board, g') \<Rightarrow>
          Inr ((board, generateRevealedBoxesData False boardwidth boardheight), g'))"

definition runModule ::
  "'s list \<Rightarrow> 'c list \<Rightarrow> nat \<Rightarrow> nat \<Rightarrow> rng
    \<Rightarrow> error + ((('s \<times> 'c) list list \<times> bool list list) \<times> rng)" where
  "runModule allshapes allcolors boardwidth boardheight g =
     (case moduleAsserts boardwidth boardheight allcolors allshapes of
        Inl e \<Rightarrow> Inl e
      | Inr u \<Rightarrow> createBoard allshapes allcolors boardwidth boardheight g)"

subsection \<open>Boxes and pixels\<close>

type_synonym box = "int \<times> int"
type_synonym pos = "int \<times> int"

text \<open>A \<^verbatim>\<open>pygame.Rect\<close>: the left-top corner and the size.\<close>

type_synonym rect = "(int \<times> int) \<times> (int \<times> int)"

text \<open>
  \<^verbatim>\<open>Rect.collidepoint\<close>: a point on the left or top edge is inside the rectangle, a point
  on the right or bottom edge is not.
\<close>

definition collidepoint :: "rect \<Rightarrow> pos \<Rightarrow> bool" where
  "collidepoint r p =
     (case r of ((x0, y0), (w, h)) \<Rightarrow>
        x0 \<le> fst p \<and> fst p < x0 + w \<and> y0 \<le> snd p \<and> snd p < y0 + h)"

definition getBoxPos :: "box \<Rightarrow> pos" where
  "getBoxPos box = (fst box * (BOXSIZE + GAPSIZE) + XMARGIN,
                    snd box * (BOXSIZE + GAPSIZE) + YMARGIN)"

definition getBoxRect :: "box \<Rightarrow> rect" where
  "getBoxRect box = (getBoxPos box, (BOXSIZE, BOXSIZE))"

text \<open>\<^verbatim>\<open>((i, j) for i in range(BOARDWIDTH) for j in range(BOARDHEIGHT))\<close>\<close>

definition allBoxes :: "box list" where
  "allBoxes = concat (map (\<lambda>i. map (\<lambda>j. (int i, int j)) [0..<BOARDHEIGHT]) [0..<BOARDWIDTH])"

text \<open>\<^verbatim>\<open>getBoxCell\<close>: the first box of the enumeration whose rectangle holds the point.\<close>

definition getBoxCell :: "pos \<Rightarrow> box option" where
  "getBoxCell p = List.find (\<lambda>box. collidepoint (getBoxRect box) p) allBoxes"

subsection \<open>Grid access\<close>

text \<open>\<^verbatim>\<open>board[box[0]][box[1]]\<close>\<close>

definition getShapeAndColor :: "'a list list \<Rightarrow> box \<Rightarrow> error + 'a" where
  "getShapeAndColor board box =
     (case py_getitem board (fst box) of
        Inl e \<Rightarrow> Inl e
      | Inr col \<Rightarrow> py_getitem col (snd box))"

definition iconVisible :: "bool list list \<Rightarrow> box \<Rightarrow> error + bool" where
  "iconVisible revealed box =
     (case py_getitem revealed (fst box) of
        Inl e \<Rightarrow> Inl e
      | Inr col \<Rightarrow> py_getitem col (snd box))"

text \<open>
  \<^verbatim>\<open>revealed[box[0]][box[1]] = visible\<close>: the column is looked up, then updated in place.
  The columns of a reveal grid are separate lists, so no other column changes.
\<close>

definition setIconVisible :: "bool list list \<Rightarrow> box \<Rightarrow> bool \<Rightarrow> error + bool list list" where
  "setIconVisible revealed box visible =
     (case py_index revealed (fst box) of
        Inl e \<Rightarrow> Inl e
      | Inr k \<Rightarrow>
          (case py_setitem (revealed ! k) (snd box) visible of
             Inl e \<Rightarrow> Inl e
           | Inr col \<Rightarrow> Inr (revealed[k := col])))"

text \<open>
  \<^verbatim>\<open>hasWon\<close>: the loop over the columns returns \<^verbatim>\<open>False\<close> at the first column that
  contains \<^verbatim>\<open>False\<close>, and \<^verbatim>\<open>True\<close> after the last column.
\<close>

fun hasWon :: "bool list list \<Rightarrow> bool" where
  "hasWon [] = True"
| "hasWon (col # cols) = (if False \<in> set col then False else hasWon cols)"

subsection \<open>Drawing\<close>

text \<open>
  The display is not modelled. What the drawing functions do to the game is read the board:
  \<^verbatim>\<open>drawIcon\<close> looks up the icon of each box it draws, and that lookup can raise.
  \<^verbatim>\<open>drawBoxCovers\<close> draws every box of the group; the reveal and the cover animation call
  it for each frame of a fixed, non-empty range of coverages, on the same board and group.
\<close>

definition drawIcon :: "icon list list \<Rightarrow> box \<Rightarrow> error + unit" where
  "drawIcon board box =
     (case getShapeAndColor board box of Inl e \<Rightarrow> Inl e | Inr ic \<Rightarrow> Inr ())"

fun drawBoxCovers :: "icon list list \<Rightarrow> box list \<Rightarrow> error + unit" where
  "drawBoxCovers board [] = Inr ()"
| "drawBoxCovers board (box # boxes) =
     (case drawIcon board box of Inl e \<Rightarrow> Inl e | Inr u \<Rightarrow> drawBoxCovers board boxes)"

definition revealBoxesAnimation :: "icon list list \<Rightarrow> box list \<Rightarrow> error + unit" where
  "revealBoxesAnimation board boxes = drawBoxCovers board boxes"

definition coverBoxesAnimation :: "icon list list \<Rightarrow> box list \<Rightarrow> error + unit" where
  "coverBoxesAnimation board boxes = drawBoxCovers board boxes"

subsection \<open>Clicks\<close>

text \<open>
  The messages passed to \<^verbatim>\<open>logging.debug\<close>: the selection after a pick, \<^verbatim>\<open>'Match'\<close> and
  \<^verbatim>\<open>'Mismatch'\<close>. They are the only place where the code tells the outcome of a comparison.
\<close>

datatype message = Selection "box list" | Match | Mismatch

record game =
  revealed :: "bool list list"
  selection :: "box list"
  debug :: "message list"

text \<open>\<^verbatim>\<open>for s in selection: setIconVisible(revealed, s, False)\<close>\<close>

fun hideBoxes :: "bool list list \<Rightarrow> box list \<Rightarrow> error + bool list list" where
  "hideBoxes rv [] = Inr rv"
| "hideBoxes rv (s # ss) =
     (case setIconVisible rv s False of Inl e \<Rightarrow> Inl e | Inr rv' \<Rightarrow> hideBoxes rv' ss)"

text \<open>
  \<^verbatim>\<open>handleClick\<close>. A box is a non-empty tuple and so is true in a condition: \<^verbatim>\<open>if box\<close>
  fails only on \<^verbatim>\<open>None\<close>.
\<close>

definition handleClick :: "icon list list \<Rightarrow> game \<Rightarrow> pos \<Rightarrow> error + game" where
  "handleClick board s mousePos =
     (case getBoxCell mousePos of
        None \<Rightarrow> Inr s
      | Some box \<Rightarrow>
          if box \<in> set (selection s) then Inr s
          else
            (let sel = selection s @ [box] in
             case setIconVisible (revealed s) box True of
               Inl e \<Rightarrow> Inl e
             | Inr rv \<Rightarrow>
                 (case revealBoxesAnimation board [box] of
                    Inl e \<Rightarrow> Inl e
                  | Inr u \<Rightarrow>
                      (let dbg = debug s @ [Selection sel] in
                       if length sel > 1 then
                         (case getShapeAndColor board (sel ! 0) of
                            Inl e \<Rightarrow> Inl e
                          | Inr icon1 \<Rightarrow>
                              (case getShapeAndColor board (sel ! 1) of
                                 Inl e \<Rightarrow> Inl e
                               | Inr icon2 \<Rightarrow>
                                   if icon1 = icon2 then
                                     Inr \<lparr>revealed = rv, selection = [], debug = dbg @ [Match]\<rparr>
                                   else
                                     (case coverBoxesAnimation board sel of
                                        Inl e \<Rightarrow> Inl e
                                      | Inr u' \<Rightarrow>
                                          (case hideBoxes rv sel of
                                             Inl e \<Rightarrow> Inl e
                                           | Inr rv' \<Rightarrow>
                                               Inr \<lparr>revealed = rv', selection = [],
                                                    debug = dbg @ [Mismatch]\<rparr>))))
                       else Inr \<lparr>revealed = rv, selection = sel, debug = dbg\<rparr>))))"

text \<open>A sequence of clicks, each handled to completion before the next; it stops at an error.\<close>

fun handleClicks :: "icon list list \<Rightarrow> game \<Rightarrow> pos list \<Rightarrow> error + game" where
  "handleClicks board s [] = Inr s"
| "handleClicks board s (p # ps) =
     (case handleClick board s p of Inl e \<Rightarrow> Inl e | Inr s' \<Rightarrow> handleClicks board s' ps)"

subsection \<open>Groups\<close>

text \<open>
  \<^verbatim>\<open>range(0, stop, step)\<close> for a positive step: the multiples of the step below the stop.
  \<^verbatim>\<open>items[start:start+size]\<close> for a start within the list and a positive size is
  \<open>take size (drop start items)\<close>.
  \<^verbatim>\<open>splitIntoGroupsOf\<close>: a zero size makes \<^verbatim>\<open>range\<close> raise \<^verbatim>\<open>ValueError\<close>, a negative
  size makes it empty.
\<close>

definition range_step :: "nat \<Rightarrow> nat \<Rightarrow> nat list" where
  "range_step stop step = map (\<lambda>k. k * step) [0..<(stop + step - 1) div step]"

definition splitIntoGroupsOf :: "int \<Rightarrow> 'a list \<Rightarrow> error + 'a list list" where
  "splitIntoGroupsOf sz items =
     (if sz = 0 then Inl ValueError
      else if sz < 0 then Inr []
      else Inr (map (\<lambda>start. take (nat sz) (drop start items))
                  (range_step (length items) (nat sz))))"

text \<open>A grid of the given dimensions: that many columns, each of that many cells.\<close>

definition grid :: "nat \<Rightarrow> nat \<Rightarrow> 'a list list \<Rightarrow> bool" where
  "grid width height g = (length g = width \<and> list_all (\<lambda>col. length col = height) g)"

subsection \<open>Well-formed games\<close>

text \<open>A box within the bounds of the board, \<open>[0, BOARDWIDTH) \<times> [0, BOARDHEIGHT)\<close>.\<close>

definition inBounds :: "box \<Rightarrow> bool" where
  "inBounds box = (0 \<le> fst box \<and> fst box < int BOARDWIDTH \<and> 0 \<le> snd box \<and> snd box < int BOARDHEIGHT)"

text \<open>Reading and writing a cell of a grid at a box within its bounds.\<close>

definition cell :: "'a list list \<Rightarrow> box \<Rightarrow> 'a" where
  "cell g box = g ! nat (fst box) ! nat (snd box)"

definition setCell :: "'a list list \<Rightarrow> box \<Rightarrow> 'a \<Rightarrow> 'a list list" where
  "setCell g box v = g[nat (fst box) := (g ! nat (fst box))[nat (snd box) := v]]"

text \<open>
  A game is well formed when its reveal grid has the dimensions of the board and every
  selected box is within bounds. On a well-formed game no lookup of \<open>handleClick\<close> can
  fail; \<open>click\<close> is what it then computes (lemma \<open>handleClick_click\<close>).
\<close>

definition wf_game :: "game \<Rightarrow> bool" where
  "wf_game s = (grid BOARDWIDTH BOARDHEIGHT (revealed s) \<and> list_all inBounds (selection s))"

definition click :: "icon list list \<Rightarrow> game \<Rightarrow> pos \<Rightarrow> game" where
  "click board s p =
     (case getBoxCell p of
        None \<Rightarrow> s
      | Some box \<Rightarrow>
          if box \<in> set (selection s) then s
          else
            (let sel = selection s @ [box];
                 rv = setCell (revealed s) box True;
                 dbg = debug s @ [Selection sel]
             in if length sel > 1 then
                  (if cell board (sel ! 0) = cell board (sel ! 1)
                   then \<lparr>revealed = rv, selection = [], debug = dbg @ [Match]\<rparr>
                   else \<lparr>revealed = fold (\<lambda>b r. setCell r b False) sel rv, selection = [],
                         debug = dbg @ [Mismatch]\<rparr>)
                else \<lparr>revealed = rv, selection = sel, debug = dbg\<rparr>))"

subsection \<open>Concrete inputs\<close>

text \<open>A random source that always draws zero.\<close>

definition zero_rng :: rng where "zero_rng = (\<lambda>k. 0)"

text \<open>
  The board the program generates from that source, and the state of a fresh round on it:
  everything hidden, nothing selected, nothing logged.
\<close>

definition board0 :: "icon list list" where
  "board0 = (case getRandomizedBoard ALLSHAPES ALLCOLORS BOARDWIDTH BOARDHEIGHT zero_rng of
               Inr (board, g) \<Rightarrow> board | Inl e \<Rightarrow> [])"

definition game0 :: game where
  "game0 = \<lparr>revealed = generateRevealedBoxesData False BOARDWIDTH BOARDHEIGHT,
            selection = [], debug = []\<rparr>"


section \<open>Properties\<close>

subsection \<open>Auxiliary facts\<close>

lemma hasWon_no_False: "hasWon rv \<longleftrightarrow> (\<forall>col\<in>set rv. False \<notin> set col)"
  by (induction rv) auto

lemma no_False_all: "False \<notin> set col \<longleftrightarrow> (\<forall>c\<in>set col. c)"
  by (induction col) auto

lemma concat_groups:
  "concat (map (\<lambda>k. take n (drop (k * n) xs)) [0..<m]) = take (m * n) xs"
proof (induction m)
  case 0 show ?case by simp
next
  case (Suc m)
  have "take (m * n + n) xs = take (m * n) xs @ take n (drop (m * n) xs)"
    by (simp add: take_add)
  with Suc show ?case by (simp add: add.commute)
qed

lemma ceil_mult_ge:
  assumes "0 < n"
  shows "len \<le> ((len + n - 1) div n) * (n::nat)"
proof -
  have "(len + n - 1) div n * n + (len + n - 1) mod n = len + n - 1"
    by (rule div_mult_mod_eq)
  moreover have "(len + n - 1) mod n < n" using assms by simp
  ultimately show ?thesis using assms by linarith
qed

lemma ceil_pred_lt:
  assumes "0 < n" and "Suc k < (len + n - 1) div n"
  shows "Suc k * n \<le> (len::nat)"
proof -
  have "Suc (Suc k) \<le> (len + n - 1) div n" using assms(2) by simp
  then have "Suc (Suc k) * n \<le> (len + n - 1) div n * n" by (rule mult_le_mono1)
  also have "\<dots> \<le> len + n - 1" by (rule div_times_less_eq_dividend)
  finally have "Suc k * n + n \<le> len + n - 1" by (simp add: add.commute)
  then show ?thesis using assms(1) by linarith
qed

lemma mod_wrap: "- n \<le> i \<Longrightarrow> i < 0 \<Longrightarrow> i mod n = i + (n::int)"
  using mod_pos_pos_trivial [of "i + n" n] by simp

lemma py_index_iff:
  "py_index xs i = (if - int (length xs) \<le> i \<and> i < int (length xs)
                    then Inr (nat (i mod int (length xs))) else Inl IndexError)"
  by (cases "i < 0") (auto simp: py_index_def Let_def mod_wrap)


lemma pop_snoc: "pop (xs @ [x]) = Inr (x, xs)"
  by (simp add: pop_def)

lemma popColumn_eq:
  "popColumn n icons =
     (if n \<le> length icons
      then Inr (take n (rev icons), rev (drop n (rev icons))) else Inl IndexError)"
proof (induction n arbitrary: icons)
  case 0 show ?case by simp
next
  case (Suc n)
  show ?case
  proof (cases icons rule: rev_cases)
    case Nil then show ?thesis by (simp add: pop_def)
  next
    case (snoc ys y)
    then show ?thesis by (simp add: pop_snoc Suc)
  qed
qed

lemma popColumns_eq:
  "popColumns w h icons =
     (if w * h \<le> length icons
      then Inr (map (\<lambda>k. take h (drop (k * h) (rev icons))) [0..<w],
                rev (drop (w * h) (rev icons)))
      else Inl IndexError)"
proof (induction w arbitrary: icons)
  case 0 show ?case by simp
next
  case (Suc w)
  show ?case
  proof (cases "h \<le> length icons")
    case False
    then show ?thesis by (auto simp: popColumn_eq)
  next
    case True
    have m: "map (\<lambda>k. take h (drop (k * h) (rev icons))) [0..<Suc w]
          = take h (rev icons) # map (\<lambda>k. take h (drop (k * h) (drop h (rev icons)))) [0..<w]"
      by (simp add: upt_conv_Cons map_Suc_upt[symmetric] add.commute del: upt_Suc)
    have a: "w * h \<le> length icons - h \<longleftrightarrow> Suc w * h \<le> length icons"
      using True by auto
    show ?thesis
      using True unfolding m
      by (simp add: popColumn_eq Suc a drop_rev[symmetric] del: upt_Suc mult_Suc)
         (simp add: add.commute)
  qed
qed

lemma shuffle_from_mset:
  "i < length xs \<Longrightarrow> mset (fst (shuffle_from i xs g)) = mset xs"
proof (induction i arbitrary: xs g)
  case 0 show ?case by simp
next
  case (Suc i)
  have "g 0 mod (Suc i + 1) < Suc i + 1" by simp
  then have j: "g 0 mod (Suc i + 1) < length xs" using Suc.prems by linarith
  have "mset (xs[Suc i := xs ! (g 0 mod (Suc i + 1)), g 0 mod (Suc i + 1) := xs ! Suc i]) = mset xs"
    using Suc.prems j by (simp add: mset_swap)
  then show ?case using Suc by (simp add: randbelow_def)
qed

lemma shuffle_mset: "mset (fst (shuffle xs g)) = mset xs"
  by (cases xs) (simp_all add: shuffle_def shuffle_from_mset)

lemma shuffle_length: "length (fst (shuffle xs g)) = length xs"
  using shuffle_mset[of xs g] by (metis size_mset)

lemma shuffle_distinct: "distinct (fst (shuffle xs g)) = distinct xs"
  using shuffle_mset[of xs g] by (rule mset_eq_imp_distinct_iff)

lemma columns_grid:
  assumes "w * h \<le> length ys"
  shows "grid w h (map (\<lambda>k. take h (drop (k * h) ys)) [0..<w])"
proof -
  have "length (take h (drop (k * h) ys)) = h" if "k < w" for k
  proof -
    have "Suc k * h \<le> w * h" using that by (intro mult_le_mono1) simp
    then show ?thesis using assms by simp
  qed
  then show ?thesis by (simp add: grid_def list_all_iff)
qed

lemma enough_icons:
  "(n::nat) \<le> 2 * min (n div 2) m \<longleftrightarrow> even n \<and> n div 2 \<le> m"
  by (cases "even n") (auto simp: min_def elim!: evenE oddE)

lemma getRandomizedBoard_eq:
  "getRandomizedBoard S C w h g =
     (let all' = fst (shuffle (List.product S C) g);
          g' = snd (shuffle (List.product S C) g);
          chosen = take ((w * h) div 2) all';
          icons' = fst (shuffle (chosen @ chosen) g');
          g'' = snd (shuffle (chosen @ chosen) g')
      in if even (w * h) \<and> (w * h) div 2 \<le> length S * length C
         then Inr (map (\<lambda>k. take h (drop (k * h) (rev icons'))) [0..<w], g'')
         else Inl IndexError)"
proof -
  have len: "w * h \<le> 2 * min ((w * h) div 2) (length S * length C)
             \<longleftrightarrow> even (w * h) \<and> (w * h) div 2 \<le> length S * length C"
    by (rule enough_icons)
  have icons_len: "length (take n xs @ take n xs) = 2 * min n (length xs)" for n and xs :: "'e list"
    by simp
  show ?thesis
    unfolding getRandomizedBoard_def Let_def
    by (simp add: case_prod_beta popColumns_eq shuffle_length icons_len len
          del: even_mult_iff length_append length_take)
qed

lemma count_list_twice:
  assumes "distinct chosen" and "mset cells = mset chosen + mset chosen" and "ic \<in> set cells"
  shows "count_list cells ic = 2"
proof -
  have "ic \<in> set chosen" using assms(2,3) by (metis set_mset_mset set_mset_union UnE in_multiset_in_set union_iff)
  then have "count (mset chosen) ic = 1" using assms(1) by (simp add: distinct_count_atmost_1)
  then have "count (mset cells) ic = 2" using assms(2) by simp
  then show ?thesis by (simp add: count_mset)
qed

lemma splitIntoGroupsOf_pos:
  assumes "0 < n"
  shows "splitIntoGroupsOf (int n) items =
           Inr (map (\<lambda>k. take n (drop (k * n) items)) [0..<(length items + n - 1) div n])"
  using assms by (simp add: splitIntoGroupsOf_def range_step_def comp_def)

lemma moduleAsserts_eq:
  "moduleAsserts w h C S =
     (if odd (w * h) \<or> length C * length S * 2 < w * h then Inl AssertionError else Inr ())"
  unfolding moduleAsserts_def by (simp add: odd_iff_mod_2_eq_one not_le del: even_mult_iff)

lemma getRandomizedBoard_fails:
  "getRandomizedBoard S C w h g = Inl IndexError
     \<longleftrightarrow> odd (w * h) \<or> length C * length S * 2 < w * h"
proof -
  have "even (w * h) \<and> (w * h) div 2 \<le> length S * length C
        \<longleftrightarrow> \<not> (odd (w * h) \<or> length C * length S * 2 < w * h)"
    by (cases "even (w * h)") (auto simp: mult.commute simp del: even_mult_iff elim!: evenE)
  then show ?thesis
    by (simp add: getRandomizedBoard_eq Let_def del: even_mult_iff)
qed

lemma py_index_nat: "k < length xs \<Longrightarrow> py_index xs (int k) = Inr k"
  by (simp add: py_index_def Let_def)

lemma getShapeAndColor_eq:
  assumes "grid w h board"
  shows "getShapeAndColor board (i, j) =
           (if - int w \<le> i \<and> i < int w \<and> - int h \<le> j \<and> j < int h
            then Inr (board ! nat (i mod int w) ! nat (j mod int h)) else Inl IndexError)"
proof (cases "- int w \<le> i \<and> i < int w")
  case False
  then show ?thesis using assms
    by (auto simp: getShapeAndColor_def py_getitem_def py_index_iff grid_def)
next
  case True
  then have "0 \<le> i mod int w" "i mod int w < int w" by auto
  then have k: "nat (i mod int w) < length board" using assms by (simp add: grid_def)
  then have "length (board ! nat (i mod int w)) = h"
    using assms by (simp add: grid_def list_all_length)
  then show ?thesis using True assms
    by (simp add: getShapeAndColor_def py_getitem_def py_index_iff grid_def)
qed

lemma find_unique:
  assumes "x \<in> set xs" and "P x" and "\<And>y. y \<in> set xs \<Longrightarrow> P y \<Longrightarrow> y = x"
  shows "List.find P xs = Some x"
  using assms
proof (induction xs)
  case Nil
  then show ?case by simp
next
  case (Cons a xs)
  show ?case
  proof (cases "P a")
    case True
    have "a = x" by (rule Cons.prems(3)) (simp_all add: True)
    then show ?thesis using True by simp
  next
    case False
    then have "x \<in> set xs" using Cons.prems(1,2) by auto
    then have "List.find P xs = Some x"
      using Cons.prems(2,3) by (intro Cons.IH) simp_all
    then show ?thesis using False by simp
  qed
qed

lemma collide_own: "collidepoint (getBoxRect box) (getBoxPos box)"
  by (simp add: collidepoint_def getBoxRect_def BOXSIZE_def case_prod_beta)

lemma collide_unique:
  assumes "collidepoint (getBoxRect box') (getBoxPos box)"
  shows "box' = box"
proof -
  from assms have "fst box' = fst box" "snd box' = snd box"
    by (simp_all add: collidepoint_def getBoxRect_def getBoxPos_def BOXSIZE_def GAPSIZE_def)
  then show ?thesis by (simp add: prod_eq_iff)
qed

lemma allBoxes_sub: "box \<in> set allBoxes \<Longrightarrow> inBounds box"
  by (auto simp: allBoxes_def inBounds_def)

lemma allBoxes_sup: 
  assumes "inBounds box" shows "box \<in> set allBoxes"
proof -
  define i j where "i = nat (fst box)" and "j = nat (snd box)"
  have "box = (int i, int j)" "i < BOARDWIDTH" "j < BOARDHEIGHT"
    using assms by (auto simp add: i_def j_def inBounds_def prod_eq_iff)
  then show "box \<in> set allBoxes" by (auto simp: allBoxes_def image_iff)
qed

lemma getBoxCell_inBounds: "getBoxCell p = Some box \<Longrightarrow> inBounds box"
  unfolding getBoxCell_def by (auto simp: find_Some_iff intro!: allBoxes_sub)

lemma getBoxCell_getBoxPos:
  assumes "inBounds box" shows "getBoxCell (getBoxPos box) = Some box"
  unfolding getBoxCell_def
proof (rule find_unique)
  show "box \<in> set allBoxes" using assms by (rule allBoxes_sup)
  show "collidepoint (getBoxRect box) (getBoxPos box)" by (rule collide_own)
  show "y = box" if "collidepoint (getBoxRect y) (getBoxPos box)" for y
    using that by (rule collide_unique)
qed

lemma inBounds_nat:
  "inBounds box \<Longrightarrow> nat (fst box) < BOARDWIDTH"
  "inBounds box \<Longrightarrow> nat (snd box) < BOARDHEIGHT"
  by (auto simp: inBounds_def)

lemma grid_column: "grid w h g \<Longrightarrow> k < w \<Longrightarrow> length (g ! k) = h"
  by (simp add: grid_def list_all_length)

lemma getShapeAndColor_cell:
  assumes "grid BOARDWIDTH BOARDHEIGHT board" and "inBounds box"
  shows "getShapeAndColor board box = Inr (cell board box)"
proof -
  have "getShapeAndColor board (fst box, snd box) = Inr (cell board box)"
    using assms(2) unfolding getShapeAndColor_eq [OF assms(1)]
    by (simp add: inBounds_def cell_def)
  then show ?thesis by simp
qed

lemma iconVisible_cell:
  assumes "grid BOARDWIDTH BOARDHEIGHT rv" and "inBounds box"
  shows "iconVisible rv box = Inr (cell rv box)"
  using getShapeAndColor_cell [OF assms]
  by (simp add: iconVisible_def getShapeAndColor_def)

lemma grid_setCell: "grid w h g \<Longrightarrow> grid w h (setCell g box v)"
  by (auto simp: grid_def setCell_def list_all_length nth_list_update)
     (metis length_list_update nth_list_update_eq nth_list_update_neq)

lemma setIconVisible_setCell:
  assumes "grid BOARDWIDTH BOARDHEIGHT rv" and "inBounds box"
  shows "setIconVisible rv box v = Inr (setCell rv box v)"
proof -
  have i: "nat (fst box) < length rv" using assms inBounds_nat by (simp add: grid_def)
  have j: "nat (snd box) < length (rv ! nat (fst box))"
    using assms by (simp add: grid_column inBounds_nat)
  have 1: "py_index rv (fst box) = Inr (nat (fst box))"
    using py_index_nat [OF i] assms(2) by (simp add: inBounds_def)
  have 2: "py_index (rv ! nat (fst box)) (snd box) = Inr (nat (snd box))"
    using py_index_nat [OF j] assms(2) by (simp add: inBounds_def)
  show ?thesis by (simp add: setIconVisible_def py_setitem_def 1 2 setCell_def)
qed

lemma cell_setCell:
  assumes "grid BOARDWIDTH BOARDHEIGHT g" and "inBounds a" and "inBounds b"
  shows "cell (setCell g a v) b = (if a = b then v else cell g b)"
proof -
  have i: "nat (fst a) < length g" using assms inBounds_nat by (simp add: grid_def)
  have j: "nat (snd a) < length (g ! nat (fst a))"
    using assms by (simp add: grid_column inBounds_nat)
  have eq: "a = b \<longleftrightarrow> nat (fst a) = nat (fst b) \<and> nat (snd a) = nat (snd b)"
    using assms(2,3) by (auto simp: inBounds_def prod_eq_iff)
  show ?thesis using i j unfolding eq
    by (auto simp: cell_def setCell_def nth_list_update)
qed

lemma drawBoxCovers_ok:
  assumes "grid BOARDWIDTH BOARDHEIGHT board"
  shows "list_all inBounds boxes \<Longrightarrow> drawBoxCovers board boxes = Inr ()"
  by (induction boxes) (simp_all add: drawIcon_def getShapeAndColor_cell [OF assms])

lemma grid_fold_setCell: "grid w h g \<Longrightarrow> grid w h (fold (\<lambda>b r. setCell r b v) boxes g)"
  by (induction boxes arbitrary: g) (simp_all add: grid_setCell)

lemma hideBoxes_fold:
  "grid BOARDWIDTH BOARDHEIGHT rv \<Longrightarrow> list_all inBounds boxes \<Longrightarrow>
   hideBoxes rv boxes = Inr (fold (\<lambda>b r. setCell r b False) boxes rv)"
  by (induction boxes arbitrary: rv) (simp_all add: setIconVisible_setCell grid_setCell)

lemma handleClick_click:
  assumes b: "grid BOARDWIDTH BOARDHEIGHT board" and s: "wf_game s"
  shows "handleClick board s p = Inr (click board s p)"
proof (cases "getBoxCell p")
  case None
  then show ?thesis by (simp add: handleClick_def click_def)
next
  case (Some box)
  then have ib: "inBounds box" by (rule getBoxCell_inBounds)
  have rv: "grid BOARDWIDTH BOARDHEIGHT (revealed s)" and sel: "list_all inBounds (selection s)"
    using s by (simp_all add: wf_game_def)
  have rv': "grid BOARDWIDTH BOARDHEIGHT (setCell (revealed s) box True)"
    using rv by (rule grid_setCell)
  note facts = setIconVisible_setCell [OF rv ib] revealBoxesAnimation_def
    coverBoxesAnimation_def drawBoxCovers_ok [OF b] getShapeAndColor_cell [OF b]
    hideBoxes_fold [OF rv'] drawIcon_def
  show ?thesis
  proof (cases "box \<in> set (selection s)")
    case True
    then show ?thesis using Some by (simp add: handleClick_def click_def)
  next
    case False
    show ?thesis
    proof (cases "selection s")
      case Nil
      then show ?thesis using Some ib
        by (simp add: handleClick_def click_def Let_def facts)
    next
      case (Cons a rest)
      note outer = Cons
      show ?thesis
      proof (cases rest)
        case Nil
        then show ?thesis using Some False ib sel outer
          by (simp add: handleClick_def click_def Let_def facts del: hideBoxes.simps)
      next
        case (Cons a' rest')
        then show ?thesis using Some False ib sel outer
          by (simp add: handleClick_def click_def Let_def facts del: hideBoxes.simps)
      qed
    qed
  qed
qed

lemma wf_click: "wf_game s \<Longrightarrow> wf_game (click board s p)"
  by (auto simp: wf_game_def click_def Let_def grid_setCell grid_fold_setCell
      dest: getBoxCell_inBounds split: option.splits)

lemma click_selection_le:
  "length (selection s) \<le> 1 \<Longrightarrow> length (selection (click board s p)) \<le> 1"
  by (auto simp: click_def Let_def split: option.splits)

text \<open>With the zero source every shuffle is a rotation by one place.\<close>

lemma zero_rng_tail: "(\<lambda>k. zero_rng (Suc k)) = zero_rng"
  by (simp add: zero_rng_def)

lemma randbelow_zero: "randbelow (Suc n) zero_rng = (0, zero_rng)"
  by (simp add: randbelow_def zero_rng_tail) (simp add: zero_rng_def)

lemma shuffle_from_zero:
  "i < length xs \<Longrightarrow>
   shuffle_from i xs zero_rng = (rotate1 (take (Suc i) xs) @ drop (Suc i) xs, zero_rng)"
proof (induction i arbitrary: xs)
  case 0
  then show ?case by (cases xs) simp_all
next
  case (Suc i)
  then obtain x0 ys where xs: "xs = x0 # ys" and i: "i < length ys"
    by (cases xs) auto
  define xs' where "xs' = xs[Suc i := xs ! 0, 0 := xs ! Suc i]"
  have xs': "xs' = ys ! i # take i ys @ x0 # drop (Suc i) ys"
    using i by (simp add: xs'_def xs upd_conv_take_nth_drop)
  have "shuffle_from (Suc i) xs zero_rng = shuffle_from i xs' zero_rng"
    by (simp add: randbelow_zero xs'_def)
  also have "\<dots> = (rotate1 (take (Suc i) xs') @ drop (Suc i) xs', zero_rng)"
    using i by (intro Suc.IH) (simp add: xs')
  also have "rotate1 (take (Suc i) xs') @ drop (Suc i) xs'
             = rotate1 (take (Suc (Suc i)) xs) @ drop (Suc (Suc i)) xs"
    using i by (simp add: xs' xs take_Suc_conv_app_nth)
  finally show ?case .
qed

lemma shuffle_zero: "shuffle xs zero_rng = (rotate1 xs, zero_rng)"
  by (cases xs) (simp_all add: shuffle_def shuffle_from_zero)

lemma board0_eq:
  "board0 =
   [[(Donut, Green), (Donut, Red), (Circle, Cyan), (Circle, Purple),
     (Circle, Orange), (Circle, Yellow), (Circle, Blue)],
    [(Circle, Green), (Circle, Red), (Triangle, Cyan), (Triangle, Purple),
     (Triangle, Orange), (Triangle, Yellow), (Triangle, Blue)],
    [(Triangle, Green), (Triangle, Red), (Diamond, Cyan), (Diamond, Purple),
     (Diamond, Orange), (Diamond, Yellow), (Diamond, Blue)],
    [(Diamond, Green), (Diamond, Red), (Square, Cyan), (Square, Purple),
     (Square, Orange), (Square, Yellow), (Square, Blue)],
    [(Square, Green), (Square, Red), (Donut, Cyan), (Donut, Purple),
     (Donut, Orange), (Donut, Yellow), (Donut, Blue)],
    [(Donut, Green), (Donut, Red), (Circle, Cyan), (Circle, Purple),
     (Circle, Orange), (Circle, Yellow), (Circle, Blue)],
    [(Circle, Green), (Circle, Red), (Triangle, Cyan), (Triangle, Purple),
     (Triangle, Orange), (Triangle, Yellow), (Triangle, Blue)],
    [(Triangle, Green), (Triangle, Red), (Diamond, Cyan), (Diamond, Purple),
     (Diamond, Orange), (Diamond, Yellow), (Diamond, Blue)],
    [(Diamond, Green), (Diamond, Red), (Square, Cyan), (Square, Purple),
     (Square, Orange), (Square, Yellow), (Square, Blue)],
    [(Square, Green), (Square, Red), (Donut, Cyan), (Donut, Purple),
     (Donut, Orange), (Donut, Yellow), (Donut, Blue)]]"
  unfolding board0_def getRandomizedBoard_eq Let_def shuffle_zero fst_conv snd_conv
  by (simp add: ALLSHAPES_def ALLCOLORS_def BOARDWIDTH_def BOARDHEIGHT_def upt_conv_Cons)

lemma grid_board0: "grid BOARDWIDTH BOARDHEIGHT board0"
  unfolding board0_eq by (simp add: grid_def BOARDWIDTH_def BOARDHEIGHT_def)

lemma grid_game0: "grid BOARDWIDTH BOARDHEIGHT (revealed game0)"
  by (simp add: game0_def generateRevealedBoxesData_def grid_def list_all_iff)

lemma getBoxCell_hits:
  "getBoxCell (70, 65) = Some (0, 0)"
  "getBoxCell (320, 65) = Some (5, 0)"
  "getBoxCell (70, 115) = Some (0, 1)"
  by code_simp+

lemma handleClicks_fold:
  assumes "grid BOARDWIDTH BOARDHEIGHT board"
  shows "wf_game s \<Longrightarrow> handleClicks board s ps = Inr (fold (\<lambda>p t. click board t p) ps s)"
  by (induction ps arbitrary: s) (simp_all add: handleClick_click [OF assms] wf_click)

lemma wf_fold_click: "wf_game s \<Longrightarrow> wf_game (fold (\<lambda>p t. click board t p) ps s)"
  by (induction ps arbitrary: s) (simp_all add: wf_click)

lemma fold_click_selection_le:
  "length (selection s) \<le> 1 \<Longrightarrow> length (selection (fold (\<lambda>p t. click board t p) ps s)) \<le> 1"
proof (induction ps arbitrary: s)
  case Nil
  then show ?case by simp
next
  case (Cons p ps)
  have "length (selection (click board s p)) \<le> 1"
    using Cons.prems by (rule click_selection_le)
  then have "length (selection (fold (\<lambda>p t. click board t p) ps (click board s p))) \<le> 1"
    by (rule Cons.IH)
  then show ?case by simp
qed

lemma click_first:
  "selection s = [] \<Longrightarrow> getBoxCell p = Some a \<Longrightarrow>
   click board s p = \<lparr>revealed = setCell (revealed s) a True, selection = [a],
                       debug = debug s @ [Selection [a]]\<rparr>"
  by (simp add: click_def Let_def)

lemma click_second:
  "selection s = [a] \<Longrightarrow> getBoxCell p = Some b \<Longrightarrow> a \<noteq> b \<Longrightarrow>
   click board s p =
     (if cell board a = cell board b
      then \<lparr>revealed = setCell (revealed s) b True, selection = [],
            debug = debug s @ [Selection [a, b], Match]\<rparr>
      else \<lparr>revealed = setCell (setCell (setCell (revealed s) b True) a False) b False,
            selection = [], debug = debug s @ [Selection [a, b], Mismatch]\<rparr>)"
  by (simp add: click_def Let_def)

lemma two_picks_visibility:
  assumes board: "grid BOARDWIDTH BOARDHEIGHT board"
    and rv: "grid BOARDWIDTH BOARDHEIGHT (revealed s)"
    and empty: "selection s = []"
    and a: "getBoxCell pa = Some a" and b: "getBoxCell pb = Some b" and ab: "a \<noteq> b"
  shows "\<exists>s1 s2. handleClick board s pa = Inr s1 \<and> handleClick board s1 pb = Inr s2
           \<and> selection s2 = []
           \<and> iconVisible (revealed s2) a = Inr (cell board a = cell board b)
           \<and> iconVisible (revealed s2) b = Inr (cell board a = cell board b)"
proof -
  have wf: "wf_game s" using rv empty by (simp add: wf_game_def)
  have ia: "inBounds a" and ib: "inBounds b"
    using a b by (auto dest: getBoxCell_inBounds)
  define s1 where "s1 = click board s pa"
  define s2 where "s2 = click board s1 pb"
  have 1: "handleClick board s pa = Inr s1"
    unfolding s1_def using board wf by (rule handleClick_click)
  have wf1: "wf_game s1" unfolding s1_def using wf by (rule wf_click)
  have 2: "handleClick board s1 pb = Inr s2"
    unfolding s2_def using board wf1 by (rule handleClick_click)
  have s1: "selection s1 = [a]" "revealed s1 = setCell (revealed s) a True"
    by (simp_all add: s1_def click_first [OF empty a])
  have wf2: "wf_game s2" unfolding s2_def using wf1 by (rule wf_click)
  then have g2: "grid BOARDWIDTH BOARDHEIGHT (revealed s2)" by (simp add: wf_game_def)
  note g = grid_setCell [OF rv] grid_setCell [OF grid_setCell [OF rv]]
    grid_setCell [OF grid_setCell [OF grid_setCell [OF rv]]]
  have ca: "cell (revealed s2) a = (cell board a = cell board b)"
    using ab by (simp add: s2_def click_second [OF s1(1) b ab] s1(2) cell_setCell rv g ia ib)
  have cb: "cell (revealed s2) b = (cell board a = cell board b)"
    using ab by (simp add: s2_def click_second [OF s1(1) b ab] s1(2) cell_setCell rv g ia ib)
  have e: "selection s2 = []"
    by (simp add: s2_def click_second [OF s1(1) b ab])
  show ?thesis
    using 1 2 e iconVisible_cell [OF g2 ia] iconVisible_cell [OF g2 ib] ca cb by auto
qed

subsection \<open>Board generation\<close>

text \<open>
  Claim C1. For every width and height whose product is even, and a catalogue whose
  (shape, colour) pairs are distinct and number at least half the product,
  \<open>getRandomizedBoard\<close> returns a board, whatever the random source draws; the board has
  \<open>width\<close> columns of \<open>height\<close> cells, so \<open>width * height\<close> cells in all, and every
  icon that occurs in it occurs in exactly two cells.
\<close>

theorem getRandomizedBoard_pairs:
  assumes ev: "even (w * h)"
    and dist: "distinct (List.product S C)"
    and enough: "(w * h) div 2 \<le> length (List.product S C)"
  shows "\<exists>board g'. getRandomizedBoard S C w h g = Inr (board, g')
           \<and> grid w h board \<and> length (concat board) = w * h
           \<and> (\<forall>ic\<in>set (concat board). count_list (concat board) ic = 2)"
proof -
  define all' where "all' = fst (shuffle (List.product S C) g)"
  define g1 where "g1 = snd (shuffle (List.product S C) g)"
  define chosen where "chosen = take ((w * h) div 2) all'"
  define icons' where "icons' = fst (shuffle (chosen @ chosen) g1)"
  define g2 where "g2 = snd (shuffle (chosen @ chosen) g1)"
  define board where "board = map (\<lambda>k. take h (drop (k * h) (rev icons'))) [0..<w]"
  have res: "getRandomizedBoard S C w h g = Inr (board, g2)"
    using ev enough
    by (simp add: getRandomizedBoard_eq Let_def board_def icons'_def g2_def chosen_def
        all'_def g1_def)
  have "length all' = length (List.product S C)" by (simp add: all'_def shuffle_length)
  then have lc: "length chosen = (w * h) div 2" using enough by (simp add: chosen_def)
  have "2 * ((w * h) div 2) = w * h" using ev by (rule even_two_times_div_two)
  then have li: "length icons' = w * h"
    using lc by (simp add: icons'_def shuffle_length)
  have cc: "concat board = rev icons'"
    unfolding board_def using li by (simp add: concat_groups)
  have dc: "distinct chosen"
    using dist by (simp add: chosen_def all'_def shuffle_distinct)
  have ms: "mset (concat board) = mset chosen + mset chosen"
    by (simp add: cc icons'_def shuffle_mset)
  have gr: "grid w h board" unfolding board_def using li by (intro columns_grid) simp
  have cnt: "\<forall>ic\<in>set (concat board). count_list (concat board) ic = 2"
    using count_list_twice[OF dc ms] by blast
  have len: "length (concat board) = w * h" by (simp only: cc length_rev li)
  show ?thesis using res gr len cnt by blast
qed

theorem getRandomizedBoard_pairs_witness:
  "even (BOARDWIDTH * BOARDHEIGHT)
   \<and> distinct (List.product ALLSHAPES ALLCOLORS)
   \<and> (BOARDWIDTH * BOARDHEIGHT) div 2 \<le> length (List.product ALLSHAPES ALLCOLORS)
   \<and> (\<exists>board g'. getRandomizedBoard ALLSHAPES ALLCOLORS BOARDWIDTH BOARDHEIGHT zero_rng
                      = Inr (board, g')
           \<and> grid BOARDWIDTH BOARDHEIGHT board
           \<and> length (concat board) = BOARDWIDTH * BOARDHEIGHT
           \<and> (\<forall>ic\<in>set (concat board). count_list (concat board) ic = 2))"
proof -
  have a: "even (BOARDWIDTH * BOARDHEIGHT)" by (simp add: BOARDWIDTH_def)
  have b: "distinct (List.product ALLSHAPES ALLCOLORS)"
    by (intro distinct_product) (simp_all add: ALLSHAPES_def ALLCOLORS_def)
  have c: "(BOARDWIDTH * BOARDHEIGHT) div 2 \<le> length (List.product ALLSHAPES ALLCOLORS)"
    by (simp add: BOARDWIDTH_def BOARDHEIGHT_def ALLSHAPES_def ALLCOLORS_def)
  show ?thesis using a b c getRandomizedBoard_pairs [OF a b c, of zero_rng] by blast
qed

text \<open>
  Claim C5, as amended. Generation fails exactly when the product of the dimensions is odd
  or the catalogue has fewer than half that many pairs. The module-level assertions then
  raise \<^verbatim>\<open>AssertionError\<close> when the module is loaded, before any board is generated;
  \<open>getRandomizedBoard\<close> itself validates nothing and raises \<^verbatim>\<open>IndexError\<close> when it runs
  out of icons to pop, returning no board. In every other configuration the assertions pass
  and a board is created.
\<close>

theorem generation_fails_iff:
  "(moduleAsserts w h C S = Inl AssertionError
       \<longleftrightarrow> odd (w * h) \<or> length C * length S * 2 < w * h)
   \<and> (getRandomizedBoard S C w h g = Inl IndexError
       \<longleftrightarrow> odd (w * h) \<or> length C * length S * 2 < w * h)
   \<and> runModule S C w h g =
       (if odd (w * h) \<or> length C * length S * 2 < w * h then Inl AssertionError
        else createBoard S C w h g)
   \<and> (isl (createBoard S C w h g) \<longleftrightarrow> odd (w * h) \<or> length C * length S * 2 < w * h)"
proof -
  have c: "isl (createBoard S C w h g) \<longleftrightarrow> getRandomizedBoard S C w h g = Inl IndexError"
    by (simp add: createBoard_def getRandomizedBoard_eq Let_def del: even_mult_iff)
  show ?thesis
    unfolding c getRandomizedBoard_fails
    by (simp add: runModule_def moduleAsserts_eq del: even_mult_iff)
qed

theorem generation_fails_iff_witness:
  "moduleAsserts 3 3 ALLCOLORS ALLSHAPES = Inl AssertionError
   \<and> getRandomizedBoard ALLSHAPES ALLCOLORS 3 3 zero_rng = Inl IndexError
   \<and> runModule ALLSHAPES ALLCOLORS 3 3 zero_rng = Inl AssertionError
   \<and> moduleAsserts 10 8 ALLCOLORS ALLSHAPES = Inl AssertionError
   \<and> getRandomizedBoard ALLSHAPES ALLCOLORS 10 8 zero_rng = Inl IndexError"
  using generation_fails_iff [of 3 3 ALLCOLORS ALLSHAPES zero_rng]
        generation_fails_iff [of 10 8 ALLCOLORS ALLSHAPES zero_rng]
  by (simp add: ALLCOLORS_def ALLSHAPES_def)

text \<open>
  A width of 3 and a height of 2 have the even product 6: with the program's catalogue of
  35 pairs the assertions pass and a board of three columns of two cells is produced.
\<close>

theorem generation_3x2_no_error:
  "moduleAsserts 3 2 ALLCOLORS ALLSHAPES = Inr ()
   \<and> map_sum id fst (runModule ALLSHAPES ALLCOLORS 3 2 zero_rng) =
       Inr ([[(Donut, Green), (Donut, Yellow)], [(Donut, Blue), (Donut, Green)],
             [(Donut, Yellow), (Donut, Blue)]],
            [[False, False], [False, False], [False, False]])"
  by code_simp

subsection \<open>Winning\<close>

text \<open>
  Claim C4. \<open>hasWon\<close> is true exactly when every cell of the reveal grid is true, and
  false whenever some cell is false.
\<close>

theorem hasWon_all_visible:
  "hasWon rv = (\<forall>col\<in>set rv. \<forall>cell\<in>set col. cell = True)
   \<and> ((\<exists>col\<in>set rv. \<exists>cell\<in>set col. cell = False) \<longrightarrow> hasWon rv = False)"
  by (auto simp: hasWon_no_False no_False_all)

theorem hasWon_all_visible_witness:
  "hasWon [[True, True], [True, True]] = True \<and> hasWon [[True, True], [True, False]] = False"
  using hasWon_all_visible [of "[[True, True], [True, True]]"]
        hasWon_all_visible [of "[[True, True], [True, False]]"]
  by simp

subsection \<open>Groups\<close>

text \<open>
  Claim C10. For every size of at least one and every list, \<open>splitIntoGroupsOf\<close> returns
  sublists whose concatenation, in order, is the list, and every sublist but possibly the
  last has exactly \<open>size\<close> items.
\<close>

theorem splitIntoGroupsOf_concat:
  assumes "1 \<le> sz"
  shows "\<exists>groups. splitIntoGroupsOf sz items = Inr groups \<and> concat groups = items
           \<and> (\<forall>k. Suc k < length groups \<longrightarrow> length (groups ! k) = nat sz)"
proof -
  define n where "n = nat sz"
  define m where "m = (length items + n - 1) div n"
  define groups where "groups = map (\<lambda>k. take n (drop (k * n) items)) [0..<m]"
  have n: "0 < n" and sz: "sz = int n" using assms by (simp_all add: n_def)
  have res: "splitIntoGroupsOf sz items = Inr groups"
    unfolding sz groups_def m_def using n by (rule splitIntoGroupsOf_pos)
  have "length items \<le> m * n" unfolding m_def using n by (rule ceil_mult_ge)
  then have cc: "concat groups = items" by (simp add: groups_def concat_groups)
  have full: "length (groups ! k) = n" if "Suc k < length groups" for k
  proof -
    have k: "Suc k < m" using that by (simp add: groups_def)
    then have "Suc k * n \<le> length items" unfolding m_def using n by (intro ceil_pred_lt)
    then show ?thesis using k by (simp add: groups_def)
  qed
  show ?thesis using res cc full unfolding n_def by blast
qed

theorem splitIntoGroupsOf_concat_witness:
  "(1::int) \<le> 2 \<and> splitIntoGroupsOf 2 [Donut, Square, Diamond] = Inr [[Donut, Square], [Diamond]]
   \<and> (\<exists>groups. splitIntoGroupsOf 2 [Donut, Square, Diamond] = Inr groups
          \<and> concat groups = [Donut, Square, Diamond]
          \<and> (\<forall>k. Suc k < length groups \<longrightarrow> length (groups ! k) = nat 2))"
proof -
  have h: "(1::int) \<le> 2" by simp
  have e: "splitIntoGroupsOf 2 [Donut, Square, Diamond] = Inr [[Donut, Square], [Diamond]]"
    by (simp add: splitIntoGroupsOf_def range_step_def upt_conv_Cons)
  show ?thesis using h e splitIntoGroupsOf_concat [OF h, of "[Donut, Square, Diamond]"] by simp
qed

subsection \<open>Looking up boxes\<close>

text \<open>
  Claim C9. Whatever the pixel position, a box returned by \<open>getBoxCell\<close> lies within
  \<open>[0, BOARDWIDTH) \<times> [0, BOARDHEIGHT)\<close>, and on grids of the board's dimensions
  \<open>getShapeAndColor\<close>, \<open>iconVisible\<close> and \<open>setIconVisible\<close> succeed at it.
\<close>

theorem getBoxCell_in_bounds:
  assumes hit: "getBoxCell p = Some box"
    and board: "grid BOARDWIDTH BOARDHEIGHT board"
    and rv: "grid BOARDWIDTH BOARDHEIGHT rv"
  shows "0 \<le> fst box \<and> fst box < int BOARDWIDTH \<and> 0 \<le> snd box \<and> snd box < int BOARDHEIGHT
       \<and> getShapeAndColor board box = Inr (board ! nat (fst box) ! nat (snd box))
       \<and> iconVisible rv box = Inr (rv ! nat (fst box) ! nat (snd box))
       \<and> (\<exists>rv'. setIconVisible rv box v = Inr rv' \<and> grid BOARDWIDTH BOARDHEIGHT rv')"
proof -
  have ib: "inBounds box" using hit by (rule getBoxCell_inBounds)
  have "\<exists>rv'. setIconVisible rv box v = Inr rv' \<and> grid BOARDWIDTH BOARDHEIGHT rv'"
    using setIconVisible_setCell [OF rv ib] grid_setCell [OF rv] by blast
  then show ?thesis
    using ib getShapeAndColor_cell [OF board ib] iconVisible_cell [OF rv ib]
    by (simp add: inBounds_def cell_def)
qed

theorem getBoxCell_in_bounds_witness:
  "getBoxCell (320, 65) = Some (5, 0) \<and> grid BOARDWIDTH BOARDHEIGHT board0
   \<and> grid BOARDWIDTH BOARDHEIGHT (revealed game0)
   \<and> getShapeAndColor board0 (5, 0) = Inr (board0 ! 5 ! 0)
   \<and> iconVisible (revealed game0) (5, 0) = Inr (revealed game0 ! 5 ! 0)
   \<and> (\<exists>rv'. setIconVisible (revealed game0) (5, 0) True = Inr rv'
          \<and> grid BOARDWIDTH BOARDHEIGHT rv')"
  using getBoxCell_hits(2) grid_board0 grid_game0
    getBoxCell_in_bounds [OF getBoxCell_hits(2) grid_board0 grid_game0, of True]
  by simp

text \<open>
  Claim C7, as amended. On a board of \<open>w\<close> columns of \<open>h\<close> cells, \<open>getShapeAndColor\<close>
  returns the stored icon for every box within \<open>[0, w) \<times> [0, h)\<close>, and raises
  \<^verbatim>\<open>IndexError\<close> for every box with a coordinate at or beyond the dimension, or below its
  negation. A negative coordinate down to the negated dimension counts from the end, as
  Python indexing does, and returns the icon stored there.
\<close>

theorem getShapeAndColor_bounds:
  assumes "grid w h board"
  shows "getShapeAndColor board (i, j) =
           (if - int w \<le> i \<and> i < int w \<and> - int h \<le> j \<and> j < int h
            then Inr (board ! nat (i mod int w) ! nat (j mod int h)) else Inl IndexError)
       \<and> (0 \<le> i \<and> i < int w \<and> 0 \<le> j \<and> j < int h
            \<longrightarrow> getShapeAndColor board (i, j) = Inr (board ! nat i ! nat j))
       \<and> (int w \<le> i \<or> int h \<le> j \<or> i < - int w \<or> j < - int h
            \<longrightarrow> getShapeAndColor board (i, j) = Inl IndexError)"
  by (auto simp: getShapeAndColor_eq [OF assms])

theorem getShapeAndColor_bounds_witness:
  "grid BOARDWIDTH BOARDHEIGHT board0
   \<and> getShapeAndColor board0 (9, 6) = Inr (board0 ! 9 ! 6)
   \<and> getShapeAndColor board0 (-1, -1) = Inr (board0 ! 9 ! 6)
   \<and> getShapeAndColor board0 (10, 6) = Inl IndexError
   \<and> getShapeAndColor board0 (-11, 6) = Inl IndexError"
  using grid_board0
    getShapeAndColor_bounds [OF grid_board0, of 9 6]
    getShapeAndColor_bounds [OF grid_board0, of "-1" "-1"]
    getShapeAndColor_bounds [OF grid_board0, of 10 6]
    getShapeAndColor_bounds [OF grid_board0, of "-11" 6]
  by (simp add: BOARDWIDTH_def BOARDHEIGHT_def)

text \<open>
  The box \<open>(-1, -1)\<close> is outside the bounds of the board, and looking it up raises nothing:
  it returns the icon of the last cell of the last column.
\<close>

theorem getShapeAndColor_negative_wraps:
  "grid BOARDWIDTH BOARDHEIGHT board0 \<and> \<not> inBounds (-1, -1)
   \<and> getShapeAndColor board0 (-1, -1) = Inr (Donut, Blue)
   \<and> getShapeAndColor board0 (9, 6) = Inr (Donut, Blue)"
proof -
  have "getShapeAndColor board0 (-1, -1) = Inr (Donut, Blue)"
    unfolding board0_eq by code_simp
  moreover have "getShapeAndColor board0 (9, 6) = Inr (Donut, Blue)"
    unfolding board0_eq by code_simp
  ultimately show ?thesis using grid_board0 by (simp add: inBounds_def)
qed

subsection \<open>Picking boxes\<close>

text \<open>
  Claim C2. On any board and reveal grid of the board's dimensions, with nothing selected,
  a click on a box \<open>a\<close> followed by a click on a different box \<open>b\<close> both complete, and
  the second logs \<^verbatim>\<open>Match\<close> exactly when the icon the board stores at \<open>a\<close> equals the
  icon it stores at \<open>b\<close>, and \<^verbatim>\<open>Mismatch\<close> otherwise, wherever the two boxes are. The
  icons are those of the board's own cells, column \<open>fst\<close> and row \<open>snd\<close> of each box, which
  is also what the lookup of each box returns.
\<close>

theorem handleClick_match_iff:
  assumes board: "grid BOARDWIDTH BOARDHEIGHT board"
    and rv: "grid BOARDWIDTH BOARDHEIGHT (revealed s)"
    and empty: "selection s = []"
    and a: "getBoxCell pa = Some a" and b: "getBoxCell pb = Some b" and ab: "a \<noteq> b"
  shows "\<exists>s1 s2.
           handleClick board s pa = Inr s1 \<and> handleClick board s1 pb = Inr s2
         \<and> getShapeAndColor board a = Inr (board ! nat (fst a) ! nat (snd a))
         \<and> getShapeAndColor board b = Inr (board ! nat (fst b) ! nat (snd b))
         \<and> debug s2 = debug s @ [Selection [a], Selection [a, b],
                                   if board ! nat (fst a) ! nat (snd a)
                                      = board ! nat (fst b) ! nat (snd b)
                                   then Match else Mismatch]
         \<and> (last (debug s2) = Match
              \<longleftrightarrow> board ! nat (fst a) ! nat (snd a) = board ! nat (fst b) ! nat (snd b))
         \<and> (last (debug s2) = Mismatch
              \<longleftrightarrow> board ! nat (fst a) ! nat (snd a) \<noteq> board ! nat (fst b) ! nat (snd b))"
proof -
  have wf: "wf_game s" using rv empty by (simp add: wf_game_def)
  define s1 where "s1 = click board s pa"
  define s2 where "s2 = click board s1 pb"
  have 1: "handleClick board s pa = Inr s1"
    unfolding s1_def using board wf by (rule handleClick_click)
  have wf1: "wf_game s1" unfolding s1_def using wf by (rule wf_click)
  have 2: "handleClick board s1 pb = Inr s2"
    unfolding s2_def using board wf1 by (rule handleClick_click)
  have s1: "selection s1 = [a]" "debug s1 = debug s @ [Selection [a]]"
    by (simp_all add: s1_def click_first [OF empty a])
  have ia: "getShapeAndColor board a = Inr (cell board a)"
    using board getBoxCell_inBounds [OF a] by (rule getShapeAndColor_cell)
  have ib: "getShapeAndColor board b = Inr (cell board b)"
    using board getBoxCell_inBounds [OF b] by (rule getShapeAndColor_cell)
  have d: "debug s2 = debug s @ [Selection [a], Selection [a, b],
                                  if cell board a = cell board b then Match else Mismatch]"
    by (simp add: s2_def click_second [OF s1(1) b ab] s1(2))
  have l: "last (debug s2) = Match \<longleftrightarrow> cell board a = cell board b"
    by (simp add: d)
  have m: "last (debug s2) = Mismatch \<longleftrightarrow> cell board a \<noteq> cell board b"
    by (simp add: d)
  show ?thesis using 1 2 ia ib d l m unfolding cell_def by blast
qed

theorem handleClick_match_iff_witness:
  "grid BOARDWIDTH BOARDHEIGHT board0 \<and> grid BOARDWIDTH BOARDHEIGHT (revealed game0)
   \<and> selection game0 = [] \<and> getBoxCell (70, 65) = Some (0, 0)
   \<and> getBoxCell (320, 65) = Some (5, 0) \<and> (0, 0) \<noteq> ((5, 0) :: box)
   \<and> board0 ! 0 ! 0 = (Donut, Green) \<and> board0 ! 5 ! 0 = (Donut, Green)
   \<and> (\<exists>s1 s2.
           handleClick board0 game0 (70, 65) = Inr s1 \<and> handleClick board0 s1 (320, 65) = Inr s2
         \<and> getShapeAndColor board0 (0, 0) = Inr (Donut, Green)
         \<and> getShapeAndColor board0 (5, 0) = Inr (Donut, Green)
         \<and> debug s2 = debug game0 @ [Selection [(0, 0)], Selection [(0, 0), (5, 0)], Match]
         \<and> last (debug s2) = Match)"
proof -
  have e: "selection game0 = []" by (simp add: game0_def)
  have n: "(0, 0) \<noteq> ((5, 0) :: box)" by simp
  have c: "board0 ! 0 ! 0 = (Donut, Green)" "board0 ! 5 ! 0 = (Donut, Green)"
    unfolding board0_eq by simp_all
  show ?thesis
    using grid_board0 grid_game0 e getBoxCell_hits(1,2) n c
      handleClick_match_iff [OF grid_board0 grid_game0 e getBoxCell_hits(1) getBoxCell_hits(2) n]
    by simp blast
qed

text \<open>
  Claim C6. A click on a box that is already in the selection changes nothing: the
  selection, the reveal grid and the log are returned as they were.
\<close>

theorem handleClick_reselect_noop:
  "getBoxCell p = Some box \<Longrightarrow> box \<in> set (selection s) \<Longrightarrow> handleClick board s p = Inr s"
  by (simp add: handleClick_def)

theorem handleClick_reselect_noop_witness:
  "getBoxCell (70, 65) = Some (0, 0) \<and> (0, 0) \<in> set (selection (game0\<lparr>selection := [(0, 0)]\<rparr>))
   \<and> handleClick board0 (game0\<lparr>selection := [(0, 0)]\<rparr>) (70, 65)
       = Inr (game0\<lparr>selection := [(0, 0)]\<rparr>)"
proof -
  have m: "(0, 0) \<in> set (selection (game0\<lparr>selection := [(0, 0)]\<rparr>))" by simp
  show ?thesis
    using getBoxCell_hits(1) m handleClick_reselect_noop [OF getBoxCell_hits(1) m, of board0] by blast
qed

text \<open>
  Claim C8. From an empty selection, every sequence of clicks runs to completion and leaves
  at most one box selected; and whenever the next click would bring the selection to two
  boxes, the call returns with the selection empty, after logging a match or a mismatch.
\<close>

theorem selection_at_most_one:
  assumes board: "grid BOARDWIDTH BOARDHEIGHT board"
    and rv: "grid BOARDWIDTH BOARDHEIGHT (revealed s)"
    and empty: "selection s = []"
  shows "\<exists>s'. handleClicks board s ps = Inr s' \<and> length (selection s') \<le> 1
           \<and> (\<forall>p box. length (selection s') = 1 \<and> getBoxCell p = Some box
                  \<and> box \<notin> set (selection s')
                \<longrightarrow> (\<exists>s''. handleClick board s' p = Inr s'' \<and> selection s'' = []
                         \<and> (last (debug s'') = Match \<or> last (debug s'') = Mismatch)))"
proof -
  have wf: "wf_game s" using rv empty by (simp add: wf_game_def)
  define s' where "s' = fold (\<lambda>p t. click board t p) ps s"
  have run: "handleClicks board s ps = Inr s'"
    unfolding s'_def using board wf by (rule handleClicks_fold)
  have wf': "wf_game s'" unfolding s'_def using wf by (rule wf_fold_click)
  have le: "length (selection s') \<le> 1"
    unfolding s'_def using empty by (intro fold_click_selection_le) simp
  have clear: "\<exists>s''. handleClick board s' p = Inr s'' \<and> selection s'' = []
                 \<and> (last (debug s'') = Match \<or> last (debug s'') = Mismatch)"
    if one: "length (selection s') = 1" and hit: "getBoxCell p = Some box"
      and new: "box \<notin> set (selection s')" for p box
  proof -
    from one obtain a where sel: "selection s' = [a]"
      by (cases "selection s'") simp_all
    have ne: "a \<noteq> box" using new sel by simp
    have "handleClick board s' p = Inr (click board s' p)"
      using board wf' by (rule handleClick_click)
    moreover have "selection (click board s' p) = []"
      by (simp add: click_second [OF sel hit ne])
    moreover have "last (debug (click board s' p)) = Match
                 \<or> last (debug (click board s' p)) = Mismatch"
      by (simp add: click_second [OF sel hit ne])
    ultimately show ?thesis by blast
  qed
  show ?thesis using run le clear by blast
qed

theorem selection_at_most_one_witness:
  "grid BOARDWIDTH BOARDHEIGHT board0 \<and> grid BOARDWIDTH BOARDHEIGHT (revealed game0)
   \<and> selection game0 = []
   \<and> (\<exists>s'. handleClicks board0 game0 [(70, 65), (320, 65), (70, 115)] = Inr s'
           \<and> length (selection s') \<le> 1
           \<and> (\<forall>p box. length (selection s') = 1 \<and> getBoxCell p = Some box
                  \<and> box \<notin> set (selection s')
                \<longrightarrow> (\<exists>s''. handleClick board0 s' p = Inr s'' \<and> selection s'' = []
                         \<and> (last (debug s'') = Match \<or> last (debug s'') = Mismatch))))"
proof -
  have e: "selection game0 = []" by (simp add: game0_def)
  show ?thesis
    using grid_board0 grid_game0 e
      selection_at_most_one [OF grid_board0 grid_game0 e, of "[(70, 65), (320, 65), (70, 115)]"]
    by blast
qed

text \<open>
  Claim C3 against the code. On the board generated from the zero source, the boxes
  \<open>(0, 0)\<close> and \<open>(5, 0)\<close> hold the same icon and \<open>(0, 1)\<close> a different one. Picking the
  first two logs a match and leaves both visible (lemma \<open>two_picks_visibility\<close> gives the
  state after any two picks). Picking \<open>(0, 1)\<close> and then the matched box \<open>(0, 0)\<close> again
  logs a mismatch and hides \<open>(0, 0)\<close>: the matched box does not stay revealed.
\<close>

theorem matched_box_hidden_again:
  "map_sum id (\<lambda>s. (debug s, iconVisible (revealed s) (0, 0), iconVisible (revealed s) (5, 0)))
     (handleClicks board0 game0 [(70, 65), (320, 65)])
   = Inr ([Selection [(0, 0)], Selection [(0, 0), (5, 0)], Match], Inr True, Inr True)
   \<and> map_sum id (\<lambda>s. (debug s, iconVisible (revealed s) (0, 0), iconVisible (revealed s) (5, 0)))
     (handleClicks board0 game0 [(70, 65), (320, 65), (70, 115), (70, 65)])
   = Inr ([Selection [(0, 0)], Selection [(0, 0), (5, 0)], Match,
           Selection [(0, 1)], Selection [(0, 1), (0, 0)], Mismatch], Inr False, Inr True)"
  unfolding board0_eq by code_simp

end
